theory Spec2Isabelle
  imports Main
begin

section \<open>Shared data model (types.ts, resources.ts)\<close>

text \<open>
  A JavaScript \<open>number\<close> that is used as an identifier, a pixel width or an HTTP status
  is modelled as an \<open>int\<close>. Interpolating such a number into a template literal prints
  its decimal digits, with a leading minus sign when it is negative.
\<close>

function digits :: "nat \<Rightarrow> string" where
  "digits n = (if n < 10 then [''0123456789'' ! n] else digits (n div 10) @ [''0123456789'' ! (n mod 10)])"
  by pat_completeness auto
termination
  by (relation "measure (\<lambda>n. n)") auto

declare digits.simps [simp del]

definition num_str :: "int \<Rightarrow> string" where
  "num_str i = (if i < 0 then CHR ''-'' # digits (nat (- i)) else digits (nat i))"

text \<open>\<open>Related.id\<close> has the TypeScript type \<open>string | number\<close>; \<open>===\<close> never identifies
  a string with a number.\<close>

datatype ident = NumId int | StrId string

record Related =
  rel_id :: ident
  rel_type :: string

section \<open>Media URLs (utils.ts, getMediaUrl)\<close>

datatype MediaFormat = Default | Source | Thumb | Square | Cover | Stories

datatype MediaExtension = Jpg | Webp | Avif | Png | Mp4 | Mp3 | Gif

datatype VideoDefinition = Hd | Sd

datatype MediaType = Image | Video | Audio

fun format_str :: "MediaFormat \<Rightarrow> string" where
  "format_str Default = ''default''"
| "format_str Source = ''source''"
| "format_str Thumb = ''thumb''"
| "format_str Square = ''square''"
| "format_str Cover = ''cover''"
| "format_str Stories = ''stories''"

fun ext_str :: "MediaExtension \<Rightarrow> string" where
  "ext_str Jpg = ''jpg''"
| "ext_str Webp = ''webp''"
| "ext_str Avif = ''avif''"
| "ext_str Png = ''png''"
| "ext_str Mp4 = ''mp4''"
| "ext_str Mp3 = ''mp3''"
| "ext_str Gif = ''gif''"

fun definition_str :: "VideoDefinition \<Rightarrow> string" where
  "definition_str Hd = ''hd''"
| "definition_str Sd = ''sd''"

fun media_type_str :: "MediaType \<Rightarrow> string" where
  "media_type_str Image = ''image''"
| "media_type_str Video = ''video''"
| "media_type_str Audio = ''audio''"

text \<open>The \<open>fingerprints\<close> attribute: one string for each of the six formats.\<close>

record Fingerprints =
  fp_source :: string
  fp_default :: string
  fp_thumb :: string
  fp_square :: string
  fp_cover :: string
  fp_stories :: string

text \<open>\<open>media.attributes.fingerprints[format]\<close>\<close>

fun fingerprint_of :: "Fingerprints \<Rightarrow> MediaFormat \<Rightarrow> string" where
  "fingerprint_of fps Source = fp_source fps"
| "fingerprint_of fps Default = fp_default fps"
| "fingerprint_of fps Thumb = fp_thumb fps"
| "fingerprint_of fps Square = fp_square fps"
| "fingerprint_of fps Cover = fp_cover fps"
| "fingerprint_of fps Stories = fp_stories fps"

text \<open>Of a media resource, the fields that \<open>getMediaUrl\<close> reads.\<close>

record Media =
  media_id :: int
  media_type :: MediaType
  mimetype :: string
  fingerprints :: Fingerprints

text \<open>\<open>GetMediaUrlOptions\<close>: an optional field is \<open>None\<close> when it is left out.\<close>

record GetMediaUrlOptions =
  opt_domain :: string
  opt_media :: Media
  opt_format :: "MediaFormat option"
  opt_width :: "int option"
  opt_slug :: "string option"
  opt_ext :: "MediaExtension option"
  opt_definition :: "VideoDefinition option"

text \<open>The three \<open>throw new Error(...)\<close> sites of \<open>getMediaUrl\<close>, each with its message.\<close>

datatype media_error =
    FormatNotAllowed string
  | DefinitionRequired string
  | InvalidMediaType string
  | GifMustUseSource string

text \<open>The apostrophe that the messages put around format and parameter names.\<close>

definition quoted :: "string \<Rightarrow> string" where
  "quoted s = [CHR 0x27] @ s @ [CHR 0x27]"

text \<open>
  The first \<open>if\<close> block of \<open>getMediaUrl\<close> (the playable-media extensions): the error it
  throws, or \<open>None\<close> when control falls through it.
\<close>

definition check_playable ::
  "Media \<Rightarrow> MediaFormat \<Rightarrow> MediaExtension option \<Rightarrow> VideoDefinition option \<Rightarrow> media_error option" where
  "check_playable media format ext definition =
    (if ext = Some Mp4 \<or> ext = Some Mp3 then
       (if media_type media = Video \<or> media_type media = Audio then
          (if format \<noteq> Default \<and> format \<noteq> Source then
             Some (FormatNotAllowed
               (''[BTF-MEDIA] Format '' @ quoted (format_str format)
                @ '' is not allowed for '' @ media_type_str (media_type media)
                @ '' with ext .'' @ (case ext of Some e \<Rightarrow> ext_str e | None \<Rightarrow> [])
                @ ''. Use '' @ quoted ''default'' @ '' or '' @ quoted ''source'' @ ''.''))
           else if definition = None then
             Some (DefinitionRequired
               (''[BTF-MEDIA] '' @ media_type_str (media_type media) @ '' requires ''
                @ quoted ''definition'' @ '' parameter for extension .''
                @ (case ext of Some e \<Rightarrow> ext_str e | None \<Rightarrow> [])))
           else None)
        else
          Some (InvalidMediaType
            (''[BTF-MEDIA] Invalid media type ('' @ media_type_str (media_type media)
             @ '') for extension .'' @ (case ext of Some e \<Rightarrow> ext_str e | None \<Rightarrow> []))))
     else None)"

text \<open>The second \<open>if\<close> (the GIF rule).\<close>

definition check_gif :: "Media \<Rightarrow> MediaFormat \<Rightarrow> MediaExtension option \<Rightarrow> media_error option" where
  "check_gif media format ext =
    (if mimetype media = ''image/gif'' \<and> ext = Some Gif \<and> format \<noteq> Source then
       Some (GifMustUseSource
         (''[BTF-MEDIA] GIF images must use '' @ quoted ''source'' @ '' format''))
     else None)"

definition getMediaUrl :: "GetMediaUrlOptions \<Rightarrow> media_error + string" where
  "getMediaUrl options =
    (let domain = opt_domain options;
         media = opt_media options;
         format = (case opt_format options of None \<Rightarrow> Default | Some f \<Rightarrow> f);
         width = opt_width options;
         slug = (case opt_slug options of None \<Rightarrow> ''media'' | Some s \<Rightarrow> s);
         ext = opt_ext options;
         definition = opt_definition options
     in case check_playable media format ext definition of
          Some e \<Rightarrow> Inl e
        | None \<Rightarrow>
      (case check_gif media format ext of
          Some e \<Rightarrow> Inl e
        | None \<Rightarrow>
       (let fingerprint = fingerprint_of (fingerprints media) format;
            extension = (case ext of None \<Rightarrow> [] | Some e \<Rightarrow> ''.'' @ ext_str e);
            size = (case definition of
                      Some d \<Rightarrow> Some (definition_str d)
                    | None \<Rightarrow> map_option num_str width)
        in case size of
             None \<Rightarrow>
               Inr (domain @ ''/v1/'' @ num_str (media_id media) @ ''-'' @ format_str format
                    @ ''/'' @ fingerprint @ ''/'' @ slug @ extension)
           | Some sz \<Rightarrow>
               Inr (domain @ ''/v1/'' @ num_str (media_id media) @ ''-'' @ format_str format
                    @ ''-'' @ sz @ ''/'' @ fingerprint @ ''/'' @ slug @ extension))))"

text \<open>
  The URL as the specification words it:
  \<open>{domain}/v1/{media.id}-{format}[-{size}]/{fingerprint}/{slug}[.{ext}]\<close>, with
  \<open>format\<close> defaulting to \<open>default\<close>, \<open>slug\<close> to \<open>media\<close>, \<open>size\<close> the definition if
  present, else the width if present, else absent, and the fingerprint that of the
  resolved format.
\<close>

definition spec_format :: "GetMediaUrlOptions \<Rightarrow> MediaFormat" where
  "spec_format options = (case opt_format options of Some f \<Rightarrow> f | None \<Rightarrow> Default)"

definition spec_slug :: "GetMediaUrlOptions \<Rightarrow> string" where
  "spec_slug options = (case opt_slug options of Some s \<Rightarrow> s | None \<Rightarrow> ''media'')"

definition spec_size :: "GetMediaUrlOptions \<Rightarrow> string option" where
  "spec_size options =
    (case opt_definition options of
       Some d \<Rightarrow> Some (definition_str d)
     | None \<Rightarrow> (case opt_width options of Some w \<Rightarrow> Some (num_str w) | None \<Rightarrow> None))"

definition spec_media_url :: "GetMediaUrlOptions \<Rightarrow> string" where
  "spec_media_url options =
     opt_domain options @ ''/v1/'' @ num_str (media_id (opt_media options)) @ ''-''
     @ format_str (spec_format options)
     @ (case spec_size options of Some sz \<Rightarrow> ''-'' @ sz | None \<Rightarrow> [])
     @ ''/'' @ fingerprint_of (fingerprints (opt_media options)) (spec_format options)
     @ ''/'' @ spec_slug options
     @ (case opt_ext options of Some e \<Rightarrow> ''.'' @ ext_str e | None \<Rightarrow> [])"

text \<open>The four conditions under which the specification lets \<open>getMediaUrl\<close> fail.\<close>

definition playable_ext :: "MediaExtension option \<Rightarrow> bool" where
  "playable_ext ext = (ext = Some Mp4 \<or> ext = Some Mp3)"

definition playable_type :: "Media \<Rightarrow> bool" where
  "playable_type media = (media_type media = Video \<or> media_type media = Audio)"

definition spec_usage_error :: "GetMediaUrlOptions \<Rightarrow> bool" where
  "spec_usage_error options =
    ((playable_ext (opt_ext options) \<and> \<not> playable_type (opt_media options))
     \<or> (playable_ext (opt_ext options) \<and> playable_type (opt_media options)
         \<and> spec_format options \<noteq> Default \<and> spec_format options \<noteq> Source)
     \<or> (playable_ext (opt_ext options) \<and> playable_type (opt_media options)
         \<and> opt_definition options = None)
     \<or> (mimetype (opt_media options) = ''image/gif'' \<and> opt_ext options = Some Gif
         \<and> spec_format options \<noteq> Source))"

text \<open>Fixtures of tests/utils.test.ts.\<close>

definition mockImage :: Media where
  "mockImage = \<lparr> media_id = 123, media_type = Image, mimetype = ''image/jpeg'',
     fingerprints = \<lparr> fp_source = ''abc123source'', fp_default = ''abc123default'',
       fp_thumb = ''abc123thumb'', fp_square = ''abc123square'', fp_cover = ''abc123cover'',
       fp_stories = ''abc123stories'' \<rparr> \<rparr>"

definition mockVideo :: Media where
  "mockVideo = \<lparr> media_id = 456, media_type = Video, mimetype = ''video/mp4'',
     fingerprints = \<lparr> fp_source = ''def456source'', fp_default = ''def456default'',
       fp_thumb = ''def456thumb'', fp_square = ''def456square'', fp_cover = ''def456cover'',
       fp_stories = ''def456stories'' \<rparr> \<rparr>"

section \<open>Related resources (utils.ts, getRelated)\<close>

text \<open>
  A resource of the included pool: its identity \<open>(id, type)\<close> and, as one opaque value,
  everything else it carries (attributes and relationships).
\<close>

record 'a Resource =
  res_id :: ident
  res_type :: string
  res_content :: 'a

text \<open>The callback of \<open>included.find\<close>.\<close>

definition same_identity :: "Related \<Rightarrow> 'a Resource \<Rightarrow> bool" where
  "same_identity related resource =
     (res_id resource = rel_id related \<and> res_type resource = rel_type related)"

text \<open>\<open>related\<close> is \<open>None\<close> for \<open>null\<close> and \<open>undefined\<close>; the result is \<open>None\<close> for
  \<open>undefined\<close>. \<open>Array.prototype.find\<close> is \<open>List.find\<close>.\<close>

definition getRelated :: "Related option \<Rightarrow> 'a Resource list \<Rightarrow> 'a Resource option" where
  "getRelated related included =
     (case related of
        None \<Rightarrow> None
      | Some r \<Rightarrow> find (same_identity r) included)"

section \<open>Category descendants (utils.ts, getCategoryChildrenIds)\<close>

text \<open>Of a category, the fields that are read: its id and \<open>relationships.parentCategory.data\<close>.\<close>

record Category =
  cat_id :: int
  parentCategory :: "Related option"

text \<open>The filter callback: \<open>cat.relationships.parentCategory.data?.id === parentId\<close>.\<close>

definition has_parent :: "int \<Rightarrow> Category \<Rightarrow> bool" where
  "has_parent parentId cat =
     (case parentCategory cat of None \<Rightarrow> False | Some r \<Rightarrow> rel_id r = NumId parentId)"

text \<open>
  \<open>findChildren\<close> calls itself from inside its \<open>for\<close> loop and nothing bounds the depth
  of these calls, so the model takes the depth it may use as fuel: \<open>None\<close> says that the
  calls nest deeper than the fuel. \<open>visit\<close> is the \<open>for (const child of children)\<close> loop;
  the array \<open>childrenIds\<close> that both push to is passed along and returned.
\<close>

fun findChildren :: "nat \<Rightarrow> Category list \<Rightarrow> int \<Rightarrow> int list \<Rightarrow> int list option"
  and visit :: "nat \<Rightarrow> Category list \<Rightarrow> Category list \<Rightarrow> int list \<Rightarrow> int list option" where
  "findChildren 0 categories parentId childrenIds = None"
| "findChildren (Suc fuel) categories parentId childrenIds =
     visit fuel categories (filter (has_parent parentId) categories) childrenIds"
| "visit fuel categories [] childrenIds = Some childrenIds"
| "visit fuel categories (child # rest) childrenIds =
     (case findChildren fuel categories (cat_id child) (childrenIds @ [cat_id child]) of
        None \<Rightarrow> None
      | Some ids \<Rightarrow> visit fuel categories rest ids)"

definition getCategoryChildrenIds :: "nat \<Rightarrow> Category \<Rightarrow> Category list \<Rightarrow> int list option" where
  "getCategoryChildrenIds fuel category categories =
     findChildren fuel categories (cat_id category) [cat_id category]"

text \<open>
  The traversal as the specification words it: the sequence for an id starts with the id;
  then the categories whose parent pointer is that id are taken in the order of the
  list, and the whole sequence of each is appended before the next sibling is looked at.
\<close>

inductive preorder :: "Category list \<Rightarrow> int \<Rightarrow> int list \<Rightarrow> bool"
  and preorder_siblings :: "Category list \<Rightarrow> Category list \<Rightarrow> int list \<Rightarrow> bool"
  for categories :: "Category list" where
  visit_id: "preorder_siblings categories (filter (has_parent i) categories) ids
      \<Longrightarrow> preorder categories i (i # ids)"
| no_sibling: "preorder_siblings categories [] []"
| next_sibling: "preorder categories (cat_id child) ids
      \<Longrightarrow> preorder_siblings categories rest ids'
      \<Longrightarrow> preorder_siblings categories (child # rest) (ids @ ids')"

text \<open>The parent-pointer relation of a category list, from an id to the id of each
  category that names it as its parent.\<close>

definition child_rel :: "Category list \<Rightarrow> (int \<times> int) set" where
  "child_rel categories =
     {(i, cat_id cat) | i cat. cat \<in> set categories \<and> has_parent i cat}"

text \<open>Fixture of tests/utils.test.ts: the forest \<open>1 \<leftarrow> 2 \<leftarrow> 3, 4; 1 \<leftarrow> 5; 6 \<leftarrow> 7\<close>.\<close>

definition category :: "int \<Rightarrow> int option \<Rightarrow> Category" where
  "category i parent =
     \<lparr> cat_id = i,
       parentCategory = map_option (\<lambda>p. \<lparr> rel_id = NumId p, rel_type = ''category'' \<rparr>) parent \<rparr>"

definition mockCategories :: "Category list" where
  "mockCategories =
     [category 1 None, category 2 (Some 1), category 3 (Some 2), category 4 (Some 2),
      category 5 (Some 1), category 6 None, category 7 (Some 6)]"

text \<open>An id from which the traversal can walk into a cycle of parent pointers.\<close>

definition reaches_cycle :: "Category list \<Rightarrow> int \<Rightarrow> bool" where
  "reaches_cycle categories i =
     (\<exists>x. (i, x) \<in> (child_rel categories)\<^sup>* \<and> (x, x) \<in> (child_rel categories)\<^sup>+)"

text \<open>The number in a parent pointer (0 when there is none); used to bound \<open>child_rel\<close>.\<close>

definition parent_num :: "Category \<Rightarrow> int" where
  "parent_num cat =
     (case parentCategory cat of
        Some r \<Rightarrow> (case rel_id r of NumId p \<Rightarrow> p | StrId s \<Rightarrow> 0)
      | None \<Rightarrow> 0)"

section \<open>Errors (errors.ts)\<close>

text \<open>
  A value that JavaScript code throws: an \<open>Error\<close> object (whether it is an instance
  of \<open>TypeError\<close>, its \<open>name\<close>, its \<open>message\<close>), or any other value.
\<close>

datatype thrown =
    ErrorObject bool string string
  | OtherThrown string

fun is_Error :: "thrown \<Rightarrow> bool" where
  "is_Error (ErrorObject t n m) = True"
| "is_Error (OtherThrown v) = False"

fun name_of :: "thrown \<Rightarrow> string option" where
  "name_of (ErrorObject t n m) = Some n"
| "name_of (OtherThrown v) = None"

fun instanceof_TypeError :: "thrown \<Rightarrow> bool" where
  "instanceof_TypeError (ErrorObject t n m) = t"
| "instanceof_TypeError (OtherThrown v) = False"

record IApiError =
  err_status :: int
  err_title :: string
  err_detail :: string

text \<open>
  What \<open>Client.get\<close> rejects with: the plain \<open>Error\<close> of a wrong call with its message,
  the three classes of errors.ts with their fields (\<open>ApiError\<close>'s \<open>details\<close> defaults to
  the empty string), and a thrown value that \<open>get\<close> lets through as it is.
\<close>

datatype failure =
    UsageError string
  | NetworkError thrown
  | RedirectError int string
  | ApiError int string string
  | Propagated thrown

section \<open>The client (client.ts)\<close>

text \<open>
  The value that \<open>res.json()\<close> resolves to has the type \<open>unknown\<close>. Of it the model keeps
  what \<open>isApiErrorResponse\<close> looks at: whether it is an object, \<open>null\<close> or something
  else, and for an object its \<open>errors\<close> property; \<open>'a\<close> is the rest of the value. An entry
  of the \<open>errors\<close> array is an \<open>IApiError\<close>, or \<open>None\<close> when it is a falsy value
  such as \<open>null\<close>.
\<close>

datatype errors_prop = NoErrorsKey | NotAnArray | ErrorArray "IApiError option list"

datatype 'a json_value = JsonNull | JsonPrimitive 'a | JsonObject errors_prop 'a

type_synonym headers = "(string \<times> string) list"

text \<open>An \<open>AbortSignal\<close> is opaque here; a label tells one from another.\<close>

type_synonym AbortSignal = string

record 'a Response =
  status :: int
  res_headers :: headers
  json :: "thrown + 'a json_value"

text \<open>\<open>Response.ok\<close>: the status is in the range 200 to 299.\<close>

definition ok :: "'a Response \<Rightarrow> bool" where
  "ok res = (200 \<le> status res \<and> status res \<le> 299)"

text \<open>A transport: called with the URL, the headers and the signal, it resolves to a
  response or rejects with a thrown value.\<close>

type_synonym 'a fetch_fn = "string \<Rightarrow> headers \<Rightarrow> AbortSignal option \<Rightarrow> thrown + 'a Response"

record QueryPage =
  page_size :: "int option"
  page_number :: "int option"

text \<open>\<open>Query\<close>; the filter is a list of keys with their values (\<open>string | number\<close>).\<close>

record Query =
  q_include :: "string option"
  q_sort :: "string option"
  q_page :: "QueryPage option"
  q_filter :: "(string \<times> ident) list option"

record 'a ClientOptions =
  co_domain :: string
  co_publicKey :: "string option"
  co_version :: "string option"
  co_fetch :: "'a fetch_fn option"

record 'a Client =
  domain :: string
  publicKey :: "string option"
  apiVersion :: string
  fetcher :: "'a fetch_fn"

record 'a FetchOptions =
  path :: "string option"
  endpoint :: "string option"
  id' :: "ident option"
  query :: "Query option"
  fetch :: "'a fetch_fn option"
  signal :: "AbortSignal option"
  intercept :: "('a Response \<Rightarrow> thrown option) option"

text \<open>\<open>options.domain.replace(/\/$/, '')\<close>: one slash at the very end is removed.\<close>

definition clean_trailing_slash :: "string \<Rightarrow> string" where
  "clean_trailing_slash s = (if s \<noteq> [] \<and> last s = CHR ''/'' then butlast s else s)"

text \<open>The constructor; \<open>globalFetch\<close> is \<open>globalThis.fetch\<close>.\<close>

definition new_Client :: "'a fetch_fn \<Rightarrow> 'a ClientOptions \<Rightarrow> 'a Client" where
  "new_Client globalFetch options =
     \<lparr> domain = clean_trailing_slash (co_domain options),
       publicKey = co_publicKey options,
       apiVersion = (case co_version options of Some v \<Rightarrow> v | None \<Rightarrow> ''v1''),
       fetcher = (case co_fetch options of Some f \<Rightarrow> f | None \<Rightarrow> globalFetch) \<rparr>"

text \<open>\<open>String.prototype.startsWith\<close>.\<close>

definition startsWith :: "string \<Rightarrow> string \<Rightarrow> bool" where
  "startsWith s p = (take (length p) s = p)"

text \<open>\<open>String.prototype.replace\<close> with a string pattern: only the first occurrence of
  the pattern is replaced.\<close>

fun replace :: "string \<Rightarrow> string \<Rightarrow> string \<Rightarrow> string" where
  "replace [] pat rep = (if pat = [] then rep else [])"
| "replace (c # cs) pat rep =
     (if startsWith (c # cs) pat then rep @ drop (length pat) (c # cs)
      else c # replace cs pat rep)"

text \<open>Truthiness of an optional string, and of an optional \<open>string | number\<close>.\<close>

fun truthy_str :: "string option \<Rightarrow> bool" where
  "truthy_str None = False"
| "truthy_str (Some s) = (s \<noteq> [])"

fun truthy_ident :: "ident option \<Rightarrow> bool" where
  "truthy_ident None = False"
| "truthy_ident (Some (NumId n)) = (n \<noteq> 0)"
| "truthy_ident (Some (StrId s)) = (s \<noteq> [])"

fun ident_str :: "ident \<Rightarrow> string" where
  "ident_str (NumId n) = num_str n"
| "ident_str (StrId s) = s"

text \<open>
  The query string of \<open>get\<close>. \<open>qs.stringify(query, { encodeValuesOnly: true })\<close> belongs to
  the library qs, not to this repository: it is the parameter \<open>stringify\<close>.
\<close>

definition qstr :: "(Query \<Rightarrow> string) \<Rightarrow> Query option \<Rightarrow> string" where
  "qstr stringify q_opt =
     (case q_opt of
        Some q \<Rightarrow> ''?'' @ replace (stringify q) ''%2523'' ''%23''
      | None \<Rightarrow> [])"

text \<open>The \<open>else\<close> branch of the URL construction (no usable path).\<close>

definition endpoint_url :: "(Query \<Rightarrow> string) \<Rightarrow> 'a Client \<Rightarrow> 'a FetchOptions \<Rightarrow> failure + string" where
  "endpoint_url stringify client options =
     (case endpoint options of
        None \<Rightarrow> Inl (UsageError ''[BTF-API] You must provide either a path or an endpoint'')
      | Some ep \<Rightarrow>
          if ep = [] then Inl (UsageError ''[BTF-API] You must provide either a path or an endpoint'')
          else
            (case id' options of
               None \<Rightarrow>
                 Inr (domain client @ ''/'' @ apiVersion client @ ''/'' @ ep
                      @ qstr stringify (query options))
             | Some i \<Rightarrow>
                 if truthy_ident (Some i) then
                   Inr (domain client @ ''/'' @ apiVersion client @ ''/'' @ ep @ ''/''
                        @ ident_str i @ qstr stringify (query options))
                 else
                   Inr (domain client @ ''/'' @ apiVersion client @ ''/'' @ ep
                        @ qstr stringify (query options))))"

text \<open>The URL construction of \<open>get\<close> (\<open>let url\<close> up to the headers).\<close>

definition build_url :: "(Query \<Rightarrow> string) \<Rightarrow> 'a Client \<Rightarrow> 'a FetchOptions \<Rightarrow> failure + string" where
  "build_url stringify client options =
     (case path options of
        None \<Rightarrow> endpoint_url stringify client options
      | Some p \<Rightarrow>
          if p \<noteq> [] then
            (if \<not> startsWith p (''/'' @ apiVersion client) then
               Inl (UsageError
                 (''[BTF-API] Invalid path : must starts with '' @ quoted (''/'' @ apiVersion client)
                  @ '', got '' @ quoted p))
             else Inr (domain client @ p))
          else endpoint_url stringify client options)"

definition request_headers :: "'a Client \<Rightarrow> headers" where
  "request_headers client =
     (if truthy_str (publicKey client)
      then [(''Accept'', ''application/json''),
            (''X-Butterfly-Key'', case publicKey client of Some k \<Rightarrow> k | None \<Rightarrow> [])]
      else [(''Accept'', ''application/json'')])"

definition isApiErrorResponse :: "'a json_value \<Rightarrow> bool" where
  "isApiErrorResponse v =
     (case v of
        JsonObject (ErrorArray es) rest \<Rightarrow> True
      | _ \<Rightarrow> False)"

text \<open>\<open>data.errors\<close> once \<open>isApiErrorResponse(data)\<close> holds.\<close>

definition errors_of :: "'a json_value \<Rightarrow> IApiError option list" where
  "errors_of v = (case v of JsonObject (ErrorArray es) rest \<Rightarrow> es | _ \<Rightarrow> [])"

text \<open>The end of \<open>get\<close>, from \<open>if (isApiErrorResponse(data) ...\<close> to \<open>return data\<close>.\<close>

definition classify :: "'a Response \<Rightarrow> 'a json_value \<Rightarrow> failure + 'a json_value" where
  "classify res data =
     (case (if isApiErrorResponse data then errors_of data else []) of
        first # others \<Rightarrow>
          (case first of
             None \<Rightarrow> Inl (ApiError (status res) ''Unknown error'' [])
           | Some err \<Rightarrow>
               if err_status err \<ge> 300 \<and> err_status err < 400
               then Inl (RedirectError (err_status err) (err_detail err))
               else Inl (ApiError (err_status err) (err_title err) (err_detail err)))
      | [] \<Rightarrow>
          if \<not> ok res then Inl (ApiError (status res) ''Unknown error'' [])
          else Inr data)"

text \<open>
  What a call of \<open>get\<close> does to the outside, in the order in which it does it: the call
  of the transport, and the call of the \<open>intercept\<close> callback.
\<close>

datatype 'a event = Fetch string headers "AbortSignal option" | Intercept "'a Response"

text \<open>\<open>await res.json()\<close> and what follows it.\<close>

definition parse_and_classify :: "'a Response \<Rightarrow> failure + 'a json_value" where
  "parse_and_classify res =
     (case json res of
        Inl e \<Rightarrow> Inl (Propagated e)
      | Inr data \<Rightarrow> classify res data)"

text \<open>
  \<open>Client.get\<close>: the effects it had, and the failure it rejects with or the value it
  resolves to. A failure ends the call, so the effects listed with a failure are those
  that happened before it was raised.
\<close>

definition get ::
  "(Query \<Rightarrow> string) \<Rightarrow> 'a Client \<Rightarrow> 'a FetchOptions \<Rightarrow> 'a event list \<times> (failure + 'a json_value)" where
  "get stringify client options =
     (let fetcher = (case fetch options of Some f \<Rightarrow> f | None \<Rightarrow> fetcher client)
      in case build_url stringify client options of
           Inl e \<Rightarrow> ([], Inl e)
         | Inr url \<Rightarrow>
             (let headers = request_headers client
              in case fetcher url headers (signal options) of
                   Inl error \<Rightarrow>
                     ([Fetch url headers (signal options)],
                      if instanceof_TypeError error
                         \<or> (is_Error error \<and> name_of error = Some ''AbortError'')
                      then Inl (NetworkError error)
                      else Inl (Propagated error))
                 | Inr res \<Rightarrow>
                     (case intercept options of
                        None \<Rightarrow> ([Fetch url headers (signal options)], parse_and_classify res)
                      | Some callback \<Rightarrow>
                          (case callback res of
                             Some e \<Rightarrow>
                               ([Fetch url headers (signal options), Intercept res],
                                Inl (Propagated e))
                           | None \<Rightarrow>
                               ([Fetch url headers (signal options), Intercept res],
                                parse_and_classify res)))))"

text \<open>The transport that a call of \<open>get\<close> uses: \<open>fetch ?? this.fetcher\<close>.\<close>

definition used_fetcher :: "'a Client \<Rightarrow> 'a FetchOptions \<Rightarrow> 'a fetch_fn" where
  "used_fetcher client options = (case fetch options of Some f \<Rightarrow> f | None \<Rightarrow> fetcher client)"

text \<open>The \<open>intercept\<close> callback, if there is one, returns without throwing.\<close>

definition returns_normally :: "('a Response \<Rightarrow> thrown option) option \<Rightarrow> 'a Response \<Rightarrow> bool" where
  "returns_normally callback res = (case callback of None \<Rightarrow> True | Some cb \<Rightarrow> cb res = None)"

text \<open>The callback was called: the effects contain an \<open>Intercept\<close>.\<close>

fun intercepted :: "'a event list \<Rightarrow> bool" where
  "intercepted [] = False"
| "intercepted (Fetch url hs sg # es) = intercepted es"
| "intercepted (Intercept res # es) = True"

text \<open>The failures that the classification at the end of \<open>get\<close> raises, and those
  that are raised before there is a response.\<close>

fun raised_by_classification :: "failure \<Rightarrow> bool" where
  "raised_by_classification (RedirectError s l) = True"
| "raised_by_classification (ApiError s t d) = True"
| "raised_by_classification f = False"

fun raised_before_response :: "failure \<Rightarrow> bool" where
  "raised_before_response (UsageError m) = True"
| "raised_before_response (NetworkError e) = True"
| "raised_before_response f = False"

text \<open>
  The classification of a body with a non-empty \<open>errors\<close> array as the specification
  words it, from its first entry: a redirect carrying the entry's status and detail when
  the status is in \<open>[300, 400)\<close>, else an API failure carrying the entry's status, title
  and detail; an entry that is missing gives an API failure with the status of the
  response and a generic title.
\<close>

definition spec_classification :: "int \<Rightarrow> IApiError option \<Rightarrow> failure" where
  "spec_classification http_status first =
     (case first of
        None \<Rightarrow> ApiError http_status ''Unknown error'' []
      | Some e \<Rightarrow>
          if 300 \<le> err_status e \<and> err_status e < 400
          then RedirectError (err_status e) (err_detail e)
          else ApiError (err_status e) (err_title e) (err_detail e))"

section \<open>Fixtures\<close>

text \<open>A transport that resolves to a given response.\<close>

definition respond :: "'a Response \<Rightarrow> 'a fetch_fn" where
  "respond res = (\<lambda>url hs sg. Inr res)"

text \<open>The client of tests/client.test.ts, here with a trailing slash after the domain.\<close>

definition test_client :: "string fetch_fn \<Rightarrow> string Client" where
  "test_client f = new_Client f \<lparr> co_domain = ''https://local.test/'', co_publicKey = None,
     co_version = None, co_fetch = None \<rparr>"

definition by_endpoint :: "string \<Rightarrow> string FetchOptions" where
  "by_endpoint ep = \<lparr> path = None, endpoint = Some ep, id' = None, query = None, fetch = None,
     signal = None, intercept = None \<rparr>"

definition by_path :: "string \<Rightarrow> string FetchOptions" where
  "by_path p = \<lparr> path = Some p, endpoint = None, id' = None, query = None, fetch = None,
     signal = None, intercept = None \<rparr>"

definition observe :: "string Response \<Rightarrow> thrown option" where
  "observe res = None"

text \<open>A stand-in for \<open>qs.stringify\<close> where no query is passed.\<close>

definition no_query :: "Query \<Rightarrow> string" where
  "no_query q = []"

text \<open>Responses: HTTP 200 whose body holds an error entry with status 301; HTTP 200
  whose \<open>errors\<close> array holds \<open>null\<close>; HTTP 502 whose body is not JSON.\<close>

definition moved_body :: "string Response" where
  "moved_body = \<lparr> status = 200, res_headers = [(''content-type'', ''application/json'')],
     json = Inr (JsonObject (ErrorArray [Some \<lparr> err_status = 301, err_title = ''Moved'',
       err_detail = ''/v1/posts/2'' \<rparr>]) ''{}'') \<rparr>"

definition null_entry_body :: "string Response" where
  "null_entry_body = \<lparr> status = 200, res_headers = [(''content-type'', ''application/json'')],
     json = Inr (JsonObject (ErrorArray [None]) ''{}'') \<rparr>"

definition not_json :: "string Response" where
  "not_json = \<lparr> status = 502, res_headers = [(''content-type'', ''text/html'')],
     json = Inl (ErrorObject False ''SyntaxError'' ''Unexpected token < in JSON at position 0'') \<rparr>"

text \<open>Responses without an \<open>errors\<close> property: HTTP 200, and HTTP 502.\<close>

definition ok_body :: "string Response" where
  "ok_body = \<lparr> status = 200, res_headers = [(''content-type'', ''application/json'')],
     json = Inr (JsonObject NoErrorsKey ''{data}'') \<rparr>"

definition bad_gateway_json :: "string Response" where
  "bad_gateway_json = \<lparr> status = 502, res_headers = [(''content-type'', ''application/json'')],
     json = Inr (JsonObject NoErrorsKey ''{}'') \<rparr>"

text \<open>
  The query \<open>{ filter: { query: '%23', authors: '%23' } }\<close>, and what
  \<open>qs.stringify\<close> with \<open>encodeValuesOnly\<close> makes of it: keys as they are, the \<open>%\<close> of
  each value escaped as \<open>%25\<close>.
\<close>

definition two_hash_query :: Query where
  "two_hash_query = \<lparr> q_include = None, q_sort = None, q_page = None,
     q_filter = Some [(''query'', StrId ''%23''), (''authors'', StrId ''%23'')] \<rparr>"

definition qs_two_hash :: "Query \<Rightarrow> string" where
  "qs_two_hash q = ''filter[query]=%2523&filter[authors]=%2523''"

text \<open>A call that passes a path and an endpoint, an id and a query as well.\<close>

definition path_and_endpoint :: "string FetchOptions" where
  "path_and_endpoint = \<lparr> path = Some ''/v1/posts/123'', endpoint = Some ''categories'',
     id' = Some (NumId 7), query = Some two_hash_query, fetch = None, signal = None,
     intercept = None \<rparr>"

text \<open>An included pool in which two resources share the identity \<open>(1, category)\<close>.\<close>

definition pool :: "string Resource list" where
  "pool = [\<lparr> res_id = NumId 1, res_type = ''image'', res_content = ''first'' \<rparr>,
           \<lparr> res_id = NumId 1, res_type = ''category'', res_content = ''second'' \<rparr>,
           \<lparr> res_id = StrId ''1'', res_type = ''category'', res_content = ''third'' \<rparr>,
           \<lparr> res_id = NumId 1, res_type = ''category'', res_content = ''fourth'' \<rparr>]"

definition category_1 :: Related where
  "category_1 = \<lparr> rel_id = NumId 1, rel_type = ''category'' \<rparr>"

definition author_1 :: Related where
  "author_1 = \<lparr> rel_id = NumId 1, rel_type = ''author'' \<rparr>"

section \<open>Properties of getMediaUrl\<close>

lemma digits_123: "digits 123 = ''123''"
  by (simp add: digits.simps)

lemma digits_456: "digits 456 = ''456''"
  by (simp add: digits.simps)

lemma digits_1200: "digits 1200 = ''1200''"
  by (simp add: digits.simps)

text \<open>
  C1. Whenever \<open>getMediaUrl\<close> returns instead of throwing, the string returned is
  \<open>{domain}/v1/{media.id}-{format}[-{size}]/{fingerprint}/{slug}[.{ext}]\<close>: format
  defaults to \<open>default\<close>, slug to \<open>media\<close>, size is the definition if present, else the
  width if present, else absent; the size segment and the extension suffix vanish when
  their source is absent; the fingerprint is the one stored for the resolved format.
\<close>

theorem getMediaUrl_shape:
  "getMediaUrl options = Inr url \<Longrightarrow> url = spec_media_url options"
  by (auto simp: getMediaUrl_def spec_media_url_def spec_format_def spec_slug_def
        spec_size_def Let_def split: option.splits)

theorem getMediaUrl_shape_witness:
  "getMediaUrl \<lparr> opt_domain = ''D'', opt_media = mockImage, opt_format = Some Cover,
       opt_width = Some 1200, opt_slug = None, opt_ext = None, opt_definition = None \<rparr>
     = Inr ''D/v1/123-cover-1200/abc123cover/media''
   \<and> ''D/v1/123-cover-1200/abc123cover/media''
     = spec_media_url \<lparr> opt_domain = ''D'', opt_media = mockImage, opt_format = Some Cover,
       opt_width = Some 1200, opt_slug = None, opt_ext = None, opt_definition = None \<rparr>"
proof -
  have run: "getMediaUrl \<lparr> opt_domain = ''D'', opt_media = mockImage, opt_format = Some Cover,
       opt_width = Some 1200, opt_slug = None, opt_ext = None, opt_definition = None \<rparr>
     = Inr ''D/v1/123-cover-1200/abc123cover/media''"
    by (simp add: getMediaUrl_def check_playable_def check_gif_def mockImage_def
          num_str_def digits_123 digits_1200)
  from getMediaUrl_shape [OF run] run show ?thesis by simp
qed

text \<open>
  C2. \<open>getMediaUrl\<close> throws exactly when one of the four conditions holds: a playable
  extension (mp4/mp3) on a media that is neither video nor audio; a playable extension on
  a video or audio with a format other than default and source; a playable extension on
  a video or audio without a definition; the GIF mime type with the gif extension and a
  format other than source. In particular an extension that is neither playable nor gif
  (a still preview such as jpg) never throws, whatever the media type and definition.
\<close>

theorem getMediaUrl_throws_iff:
  "(isl (getMediaUrl options) \<longleftrightarrow> spec_usage_error options)
   \<and> (opt_ext options \<notin> {Some Mp4, Some Mp3, Some Gif} \<longrightarrow> \<not> isl (getMediaUrl options))"
  by (auto simp: getMediaUrl_def check_playable_def check_gif_def spec_usage_error_def
        playable_ext_def playable_type_def spec_format_def Let_def split: option.splits)

theorem getMediaUrl_throws_iff_witness:
  "(isl (getMediaUrl \<lparr> opt_domain = ''D'', opt_media = mockVideo, opt_format = Some Cover,
       opt_width = None, opt_slug = None, opt_ext = Some Jpg, opt_definition = None \<rparr>)
     \<longleftrightarrow> spec_usage_error \<lparr> opt_domain = ''D'', opt_media = mockVideo, opt_format = Some Cover,
       opt_width = None, opt_slug = None, opt_ext = Some Jpg, opt_definition = None \<rparr>)
   \<and> Some Jpg \<notin> {Some Mp4, Some Mp3, Some Gif}
   \<and> getMediaUrl \<lparr> opt_domain = ''D'', opt_media = mockVideo, opt_format = Some Cover,
       opt_width = None, opt_slug = None, opt_ext = Some Jpg, opt_definition = None \<rparr>
     = Inr ''D/v1/456-cover/def456cover/media.jpg''"
proof -
  have run: "getMediaUrl \<lparr> opt_domain = ''D'', opt_media = mockVideo, opt_format = Some Cover,
       opt_width = None, opt_slug = None, opt_ext = Some Jpg, opt_definition = None \<rparr>
     = Inr ''D/v1/456-cover/def456cover/media.jpg''"
    by (simp add: getMediaUrl_def check_playable_def check_gif_def mockVideo_def
          num_str_def digits_456)
  from getMediaUrl_throws_iff [of "\<lparr> opt_domain = ''D'', opt_media = mockVideo,
       opt_format = Some Cover, opt_width = None, opt_slug = None, opt_ext = Some Jpg,
       opt_definition = None \<rparr>"] run
  show ?thesis by simp
qed


section \<open>Properties of getRelated\<close>

text \<open>
  C9. \<open>getRelated\<close> returns nothing for a null or absent pointer and when no resource of
  the pool has the pointer's \<open>(id, type)\<close>; otherwise it returns the first resource of
  the pool, in scan order, with that identity. Its result is an optional resource: no
  path of it throws.
\<close>

theorem getRelated_first_match:
  "getRelated None included = None
   \<and> ((\<forall>resource \<in> set included. \<not> same_identity pointer resource)
        \<longrightarrow> getRelated (Some pointer) included = None)
   \<and> ((\<exists>resource \<in> set included. same_identity pointer resource)
        \<longrightarrow> (\<exists>before found after. included = before @ found # after
              \<and> (\<forall>resource \<in> set before. \<not> same_identity pointer resource)
              \<and> same_identity pointer found
              \<and> getRelated (Some pointer) included = Some found))"
proof (intro conjI impI)
  show "getRelated None included = None"
    by (simp add: getRelated_def)
next
  assume "\<forall>resource \<in> set included. \<not> same_identity pointer resource"
  then show "getRelated (Some pointer) included = None"
    by (simp add: getRelated_def find_None_iff)
next
  assume "\<exists>resource \<in> set included. same_identity pointer resource"
  then obtain found where "find (same_identity pointer) included = Some found"
    by (cases "find (same_identity pointer) included") (auto simp: find_None_iff)
  then obtain i where i: "i < length included" and sat: "same_identity pointer (included ! i)"
    and found: "found = included ! i" and first: "\<forall>j<i. \<not> same_identity pointer (included ! j)"
    by (auto simp: find_Some_iff)
  from i have split: "included = take i included @ found # drop (Suc i) included"
    by (simp add: found id_take_nth_drop)
  have "\<forall>resource \<in> set (take i included). \<not> same_identity pointer resource"
    using first i by (auto simp: in_set_conv_nth)
  with split sat found \<open>find (same_identity pointer) included = Some found\<close>
  show "\<exists>before found after. included = before @ found # after
              \<and> (\<forall>resource \<in> set before. \<not> same_identity pointer resource)
              \<and> same_identity pointer found
              \<and> getRelated (Some pointer) included = Some found"
    unfolding getRelated_def by (metis option.simps(5))
qed

theorem getRelated_first_match_witness:
  "same_identity category_1 (pool ! 1)
   \<and> getRelated (Some category_1) pool = Some (pool ! 1)
   \<and> res_content (pool ! 1) = ''second''
   \<and> find (same_identity author_1) pool = None
   \<and> getRelated (Some author_1) pool = None"
proof -
  have hit: "\<exists>resource \<in> set pool. same_identity category_1 resource"
    by (simp add: pool_def same_identity_def category_1_def)
  have miss: "\<forall>resource \<in> set pool. \<not> same_identity author_1 resource"
    by (simp add: pool_def same_identity_def author_1_def)
  from getRelated_first_match [of pool category_1] hit obtain before found after
    where "pool = before @ found # after" and "same_identity category_1 found"
      and found: "getRelated (Some category_1) pool = Some found"
    by blast
  have "getRelated (Some category_1) pool = Some (pool ! 1)"
    by (simp add: getRelated_def pool_def same_identity_def category_1_def)
  moreover from getRelated_first_match [of pool author_1] miss
  have none: "getRelated (Some author_1) pool = None"
    by blast
  then have "find (same_identity author_1) pool = None"
    by (simp add: getRelated_def)
  moreover have "same_identity category_1 (pool ! 1)" "res_content (pool ! 1) = ''second''"
    by (simp_all add: pool_def same_identity_def category_1_def)
  ultimately show ?thesis using none by simp
qed

section \<open>Properties of getCategoryChildrenIds\<close>

text \<open>
  More fuel never changes a result; what the model returns is the preorder sequence of
  the specification, and every such sequence is returned once the fuel is enough.
\<close>

lemma fuel_mono_aux:
  "(\<forall>r m. findChildren n cats i acc = Some r \<longrightarrow> n \<le> m \<longrightarrow> findChildren m cats i acc = Some r)"
  "(\<forall>r m. visit n cats chs acc = Some r \<longrightarrow> n \<le> m \<longrightarrow> visit m cats chs acc = Some r)"
proof (induction n cats i acc and n cats chs acc rule: findChildren_visit.induct)
  case (1 categories parentId childrenIds)
  show ?case by simp
next
  case (2 fuel categories parentId childrenIds)
  show ?case
  proof (intro allI impI)
    fix r m
    assume run: "findChildren (Suc fuel) categories parentId childrenIds = Some r"
      and le: "Suc fuel \<le> m"
    then obtain m' where m: "m = Suc m'" and le': "fuel \<le> m'"
      by (cases m) auto
    from run have "visit fuel categories (filter (has_parent parentId) categories) childrenIds = Some r"
      by simp
    with 2 le' have "visit m' categories (filter (has_parent parentId) categories) childrenIds = Some r"
      by blast
    then show "findChildren m categories parentId childrenIds = Some r"
      by (simp add: m)
  qed
next
  case (3 fuel categories childrenIds)
  show ?case by simp
next
  case (4 fuel categories child rest childrenIds)
  show ?case
  proof (intro allI impI)
    fix r m
    assume run: "visit fuel categories (child # rest) childrenIds = Some r" and le: "fuel \<le> m"
    from run obtain ids where
      first: "findChildren fuel categories (cat_id child) (childrenIds @ [cat_id child]) = Some ids"
      and others: "visit fuel categories rest ids = Some r"
      by (auto split: option.splits)
    from 4(1) first le
    have first': "findChildren m categories (cat_id child) (childrenIds @ [cat_id child]) = Some ids"
      by blast
    from 4(2) [OF first] others le have "visit m categories rest ids = Some r"
      by blast
    with first' show "visit m categories (child # rest) childrenIds = Some r"
      by simp
  qed
qed

lemma findChildren_fuel_mono:
  "findChildren n cats i acc = Some r \<Longrightarrow> n \<le> m \<Longrightarrow> findChildren m cats i acc = Some r"
  using fuel_mono_aux(1) by blast

lemma visit_fuel_mono:
  "visit n cats chs acc = Some r \<Longrightarrow> n \<le> m \<Longrightarrow> visit m cats chs acc = Some r"
  using fuel_mono_aux(2) by blast

lemma traversal_sound_aux:
  "(\<forall>r. findChildren n cats i acc = Some r \<longrightarrow>
      (\<exists>ids. preorder_siblings cats (filter (has_parent i) cats) ids \<and> r = acc @ ids))"
  "(\<forall>r. visit n cats chs acc = Some r \<longrightarrow>
      (\<exists>ids. preorder_siblings cats chs ids \<and> r = acc @ ids))"
proof (induction n cats i acc and n cats chs acc rule: findChildren_visit.induct)
  case (1 categories parentId childrenIds)
  show ?case by simp
next
  case (2 fuel categories parentId childrenIds)
  then show ?case by simp
next
  case (3 fuel categories childrenIds)
  show ?case by (auto intro: no_sibling)
next
  case (4 fuel categories child rest childrenIds)
  show ?case
  proof (intro allI impI)
    fix r
    assume run: "visit fuel categories (child # rest) childrenIds = Some r"
    from run obtain ids where
      first: "findChildren fuel categories (cat_id child) (childrenIds @ [cat_id child]) = Some ids"
      and others: "visit fuel categories rest ids = Some r"
      by (auto split: option.splits)
    from 4(1) first obtain below where
      below: "preorder_siblings categories (filter (has_parent (cat_id child)) categories) below"
      and ids: "ids = (childrenIds @ [cat_id child]) @ below"
      by blast
    from 4(2) [OF first] others obtain after where
      after: "preorder_siblings categories rest after" and r: "r = ids @ after"
      by blast
    from below have "preorder categories (cat_id child) (cat_id child # below)"
      by (rule visit_id)
    then have "preorder_siblings categories (child # rest) ((cat_id child # below) @ after)"
      using after by (rule next_sibling)
    moreover have "r = childrenIds @ ((cat_id child # below) @ after)"
      by (simp add: r ids)
    ultimately show "\<exists>ids. preorder_siblings categories (child # rest) ids \<and> r = childrenIds @ ids"
      by blast
  qed
qed

lemma traversal_complete_aux:
  "(preorder cats i ys \<longrightarrow> (\<exists>n. \<forall>acc. findChildren n cats i acc = Some (acc @ tl ys)) \<and> ys \<noteq> [] \<and> hd ys = i)
   \<and> (preorder_siblings cats chs ids \<longrightarrow> (\<exists>n. \<forall>acc. visit n cats chs acc = Some (acc @ ids)))"
proof (induction rule: preorder_preorder_siblings.induct)
  case (visit_id i ids)
  then obtain n where "\<forall>acc. visit n cats (filter (has_parent i) cats) acc = Some (acc @ ids)"
    by blast
  then have "\<forall>acc. findChildren (Suc n) cats i acc = Some (acc @ tl (i # ids))"
    by simp
  then show ?case by (metis list.sel(1) list.distinct(1))
next
  case no_sibling
  show ?case by simp
next
  case (next_sibling child ids rest ids')
  then obtain n where n: "\<forall>acc. findChildren n cats (cat_id child) acc = Some (acc @ tl ids)"
    and ne: "ids \<noteq> []" and hd: "hd ids = cat_id child"
    by blast
  from next_sibling obtain k where k: "\<forall>acc. visit k cats rest acc = Some (acc @ ids')"
    by blast
  have "visit (max n k) cats (child # rest) acc = Some (acc @ ids @ ids')" for acc
  proof -
    from n have "findChildren (max n k) cats (cat_id child) (acc @ [cat_id child])
        = Some ((acc @ [cat_id child]) @ tl ids)"
      by (meson findChildren_fuel_mono max.cobounded1)
    moreover from k have "visit (max n k) cats rest ((acc @ [cat_id child]) @ tl ids)
        = Some (((acc @ [cat_id child]) @ tl ids) @ ids')"
      by (meson visit_fuel_mono max.cobounded2)
    moreover from ne hd have "cat_id child # tl ids = ids"
      by (cases ids) auto
    then have "((acc @ [cat_id child]) @ tl ids) @ ids' = acc @ ids @ ids'"
      by simp
    ultimately show ?thesis by simp
  qed
  then show ?case by blast
qed

lemma child_relI: "cat \<in> set cats \<Longrightarrow> has_parent i cat \<Longrightarrow> (i, cat_id cat) \<in> child_rel cats"
  by (auto simp: child_rel_def)

lemma has_parent_num: "has_parent i cat \<Longrightarrow> parent_num cat = i"
  by (auto simp: has_parent_def parent_num_def split: option.splits)

lemma finite_child_rel: "finite (child_rel cats)"
proof -
  have "child_rel cats \<subseteq> (\<lambda>cat. (parent_num cat, cat_id cat)) ` set cats"
  proof
    fix e
    assume "e \<in> child_rel cats"
    then obtain i cat where e: "e = (i, cat_id cat)" and cat: "cat \<in> set cats"
      and par: "has_parent i cat"
      by (auto simp: child_rel_def)
    from par have "e = (parent_num cat, cat_id cat)"
      by (simp add: e has_parent_num)
    with cat show "e \<in> (\<lambda>cat. (parent_num cat, cat_id cat)) ` set cats"
      by (rule image_eqI [rotated])
  qed
  then show ?thesis
    by (rule finite_subset) simp
qed

lemma siblings_exist:
  "(\<And>ch. ch \<in> set chs \<Longrightarrow> \<exists>ys. preorder cats (cat_id ch) ys)
     \<Longrightarrow> \<exists>ids. preorder_siblings cats chs ids"
proof (induction chs)
  case Nil
  show ?case by (blast intro: no_sibling)
next
  case (Cons ch chs)
  then obtain ys where "preorder cats (cat_id ch) ys" by auto
  moreover from Cons obtain ids where "preorder_siblings cats chs ids" by auto
  ultimately show ?case by (blast intro: next_sibling)
qed

lemma preorder_exists:
  assumes "acyclic (child_rel cats)"
  shows "\<exists>ys. preorder cats i ys"
proof -
  from finite_child_rel assms have "wf ((child_rel cats)\<inverse>)"
    by (rule finite_acyclic_wf_converse)
  then show ?thesis
  proof (induction i rule: wf_induct_rule)
    case (less i)
    have "\<exists>ys. preorder cats (cat_id ch) ys" if "ch \<in> set (filter (has_parent i) cats)" for ch
    proof -
      from that have "(i, cat_id ch) \<in> child_rel cats"
        by (auto simp: child_rel_def)
      then show ?thesis by (simp add: less)
    qed
    then obtain ids where "preorder_siblings cats (filter (has_parent i) cats) ids"
      using siblings_exist by blast
    then show ?case by (blast intro: visit_id)
  qed
qed

lemma reaches_cycle_step:
  assumes "reaches_cycle cats i"
  shows "\<exists>ch \<in> set (filter (has_parent i) cats). reaches_cycle cats (cat_id ch)"
proof -
  from assms obtain x where ix: "(i, x) \<in> (child_rel cats)\<^sup>*" and xx: "(x, x) \<in> (child_rel cats)\<^sup>+"
    by (auto simp: reaches_cycle_def)
  have "(i, x) \<in> (child_rel cats)\<^sup>+"
  proof (cases "i = x")
    case True
    with xx show ?thesis by simp
  next
    case False
    with ix show ?thesis by (auto simp: rtrancl_eq_or_trancl)
  qed
  then obtain j where ij: "(i, j) \<in> child_rel cats" and jx: "(j, x) \<in> (child_rel cats)\<^sup>*"
    by (auto dest: tranclD)
  from ij obtain ch where "ch \<in> set cats" "has_parent i ch" "j = cat_id ch"
    by (auto simp: child_rel_def)
  moreover from jx xx have "reaches_cycle cats j"
    by (auto simp: reaches_cycle_def)
  ultimately show ?thesis by auto
qed

lemma visit_None:
  "ch \<in> set chs \<Longrightarrow> (\<And>acc. findChildren n cats (cat_id ch) acc = None)
     \<Longrightarrow> visit n cats chs acc = None"
  by (induction chs arbitrary: acc) (auto split: option.splits)

lemma findChildren_cycle:
  "reaches_cycle cats i \<Longrightarrow> findChildren n cats i acc = None"
proof (induction n arbitrary: i acc)
  case 0
  show ?case by simp
next
  case (Suc n)
  from reaches_cycle_step [OF Suc.prems] obtain ch
    where ch: "ch \<in> set (filter (has_parent i) cats)" and cyc: "reaches_cycle cats (cat_id ch)"
    by blast
  from cyc have "findChildren n cats (cat_id ch) acc' = None" for acc'
    by (rule Suc.IH)
  with ch have "visit n cats (filter (has_parent i) cats) acc = None"
    by (rule visit_None)
  then show ?case by simp
qed

lemma acyclic_mock: "acyclic (child_rel mockCategories)"
proof (rule acyclicI_order [where f = "\<lambda>i. - i"])
  fix a b
  assume "(a, b) \<in> child_rel mockCategories"
  then show "- b < - a"
    by (auto simp: child_rel_def mockCategories_def category_def has_parent_def)
qed

lemma two_cycle: "reaches_cycle [category 1 (Some 2), category 2 (Some 1)] 1"
proof -
  let ?cats = "[category 1 (Some 2), category 2 (Some 1)]"
  have "(1, cat_id (category 2 (Some 1))) \<in> child_rel ?cats"
    by (rule child_relI) (simp_all add: has_parent_def category_def)
  then have a: "(1, 2) \<in> child_rel ?cats" by (simp add: category_def)
  have "(2, cat_id (category 1 (Some 2))) \<in> child_rel ?cats"
    by (rule child_relI) (simp_all add: has_parent_def category_def)
  then have b: "(2, 1) \<in> child_rel ?cats" by (simp add: category_def)
  from a b have "(1, 1) \<in> (child_rel ?cats)\<^sup>+" by (rule trancl_into_trancl2 [OF _ r_into_trancl])
  then show ?thesis unfolding reaches_cycle_def by blast
qed

lemma collect_unique:
  assumes "findChildren n cats i acc = Some r" "findChildren m cats i acc = Some r'"
  shows "r = r'"
proof -
  from assms(1) have "findChildren (max n m) cats i acc = Some r"
    by (rule findChildren_fuel_mono) simp
  moreover from assms(2) have "findChildren (max n m) cats i acc = Some r'"
    by (rule findChildren_fuel_mono) simp
  ultimately show ?thesis by simp
qed

lemma collect_acyclic:
  assumes "acyclic (child_rel cats)"
  shows "\<exists>fuel ids. getCategoryChildrenIds fuel c cats = Some (cat_id c # ids)
           \<and> preorder cats (cat_id c) (cat_id c # ids)"
proof -
  from preorder_exists [OF assms] obtain ys where ys: "preorder cats (cat_id c) ys"
    by blast
  with traversal_complete_aux [of cats "cat_id c" ys]
  obtain n where n: "\<forall>acc. findChildren n cats (cat_id c) acc = Some (acc @ tl ys)"
    and ne: "ys \<noteq> []" and hd: "hd ys = cat_id c"
    by blast
  from ne hd have "ys = cat_id c # tl ys" by (cases ys) auto
  with n ys show ?thesis
    unfolding getCategoryChildrenIds_def
    by (metis append_Cons append_Nil)
qed

lemma collect_7_mock: "getCategoryChildrenIds 3 (category 7 (Some 6)) mockCategories = Some [7]"
    by (simp add: getCategoryChildrenIds_def mockCategories_def category_def has_parent_def
          numeral_3_eq_3)

lemma collect_sound:
  assumes "getCategoryChildrenIds fuel c cats = Some ids"
  shows "preorder cats (cat_id c) ids"
proof -
  from assms traversal_sound_aux(1) [of fuel cats "cat_id c" "[cat_id c]"]
  obtain below where "preorder_siblings cats (filter (has_parent (cat_id c)) cats) below"
    and "ids = [cat_id c] @ below"
    unfolding getCategoryChildrenIds_def by blast
  then show ?thesis by (simp add: visit_id)
qed

text \<open>
  C7, in the form that holds. For an acyclic category list, \<open>getCategoryChildrenIds\<close> returns one
  sequence, the same for every fuel that suffices. Its first element is the id of the
  starting category, whether or not that category is in the list, and the sequence is
  the depth-first preorder: after an id come, in list order, the categories whose parent
  pointer is that id, each with its whole subtree before the next sibling. When no
  category of the list names the starting id as its parent, the result is the singleton
  of that id. Whatever the list, a result that is returned is that preorder sequence. On
  the forest \<open>1 \<leftarrow> 2 \<leftarrow> 3, 4; 1 \<leftarrow> 5; 6 \<leftarrow> 7\<close>: category 2 gives \<open>[2, 3, 4]\<close>, category 1
  gives \<open>[1, 2, 3, 4, 5]\<close>, the absent category 999 gives \<open>[999]\<close>.
\<close>

theorem collect_preorder:
  "(acyclic (child_rel categories) \<longrightarrow>
     (\<exists>ids. (\<exists>fuel. getCategoryChildrenIds fuel c categories = Some ids)
        \<and> (\<forall>fuel ids'. getCategoryChildrenIds fuel c categories = Some ids' \<longrightarrow> ids' = ids)
        \<and> hd ids = cat_id c
        \<and> preorder categories (cat_id c) ids
        \<and> (filter (has_parent (cat_id c)) categories = [] \<longrightarrow> ids = [cat_id c])))
   \<and> (\<forall>fuel ids. getCategoryChildrenIds fuel c categories = Some ids
         \<longrightarrow> preorder categories (cat_id c) ids)
   \<and> getCategoryChildrenIds 3 (category 2 (Some 1)) mockCategories = Some [2, 3, 4]
   \<and> getCategoryChildrenIds 3 (category 1 None) mockCategories = Some [1, 2, 3, 4, 5]
   \<and> getCategoryChildrenIds 3 (category 999 None) mockCategories = Some [999]"
proof (intro conjI impI allI)
  assume acyc: "acyclic (child_rel categories)"
  from collect_acyclic [OF acyc, of c] obtain fuel ids
    where run: "getCategoryChildrenIds fuel c categories = Some (cat_id c # ids)"
      and pre: "preorder categories (cat_id c) (cat_id c # ids)"
    by blast
  have uniq: "ids' = cat_id c # ids" if "getCategoryChildrenIds fuel' c categories = Some ids'"
    for fuel' ids'
    using that run unfolding getCategoryChildrenIds_def by (rule collect_unique)
  have single: "cat_id c # ids = [cat_id c]" if "filter (has_parent (cat_id c)) categories = []"
  proof -
    from that have "getCategoryChildrenIds (Suc 0) c categories = Some [cat_id c]"
      by (simp add: getCategoryChildrenIds_def)
    then show ?thesis by (rule uniq [symmetric])
  qed
  show "\<exists>ids. (\<exists>fuel. getCategoryChildrenIds fuel c categories = Some ids)
        \<and> (\<forall>fuel ids'. getCategoryChildrenIds fuel c categories = Some ids' \<longrightarrow> ids' = ids)
        \<and> hd ids = cat_id c
        \<and> preorder categories (cat_id c) ids
        \<and> (filter (has_parent (cat_id c)) categories = [] \<longrightarrow> ids = [cat_id c])"
  proof (intro exI [of _ "cat_id c # ids"] conjI allI impI)
    show "\<exists>fuel. getCategoryChildrenIds fuel c categories = Some (cat_id c # ids)"
      using run by blast
    show "ids' = cat_id c # ids" if "getCategoryChildrenIds fuel' c categories = Some ids'"
      for fuel' ids' using that by (rule uniq)
    show "hd (cat_id c # ids) = cat_id c" by simp
    show "preorder categories (cat_id c) (cat_id c # ids)" by (rule pre)
    show "cat_id c # ids = [cat_id c]" if "filter (has_parent (cat_id c)) categories = []"
      using that by (rule single)
  qed
next
  fix fuel ids
  assume "getCategoryChildrenIds fuel c categories = Some ids"
  then show "preorder categories (cat_id c) ids"
    by (rule collect_sound)
next
  show "getCategoryChildrenIds 3 (category 2 (Some 1)) mockCategories = Some [2, 3, 4]"
    by (simp add: getCategoryChildrenIds_def mockCategories_def category_def has_parent_def
          numeral_3_eq_3)
  show "getCategoryChildrenIds 3 (category 1 None) mockCategories = Some [1, 2, 3, 4, 5]"
    by (simp add: getCategoryChildrenIds_def mockCategories_def category_def has_parent_def
          numeral_3_eq_3)
  show "getCategoryChildrenIds 3 (category 999 None) mockCategories = Some [999]"
    by (simp add: getCategoryChildrenIds_def mockCategories_def category_def has_parent_def
          numeral_3_eq_3)
qed

theorem collect_preorder_witness:
  "acyclic (child_rel mockCategories)
   \<and> getCategoryChildrenIds 3 (category 7 (Some 6)) mockCategories = Some [7]
   \<and> filter (has_parent (cat_id (category 7 (Some 6)))) mockCategories = []
   \<and> preorder mockCategories 7 [7]"
proof -
  from collect_preorder [of mockCategories "category 7 (Some 6)"] acyclic_mock
  obtain ids where
    u: "\<forall>fuel ids'. getCategoryChildrenIds fuel (category 7 (Some 6)) mockCategories = Some ids' \<longrightarrow> ids' = ids"
    and p: "preorder mockCategories (cat_id (category 7 (Some 6))) ids"
    by blast
  from u collect_7_mock have "ids = [7]" by blast
  with p have "preorder mockCategories 7 [7]" by (simp add: category_def)
  moreover have "filter (has_parent (cat_id (category 7 (Some 6)))) mockCategories = []"
    by (simp add: mockCategories_def category_def has_parent_def)
  ultimately show ?thesis using acyclic_mock collect_7_mock by simp
qed

text \<open>
  C7 as first stated fails where the starting category is not in the list but a
  category of the list names its id as parent: the result is not the singleton.
\<close>

theorem collect_absent_with_children:
  "category 1 None \<notin> set [category 2 (Some 1)]
   \<and> acyclic (child_rel [category 2 (Some 1)])
   \<and> getCategoryChildrenIds 2 (category 1 None) [category 2 (Some 1)] = Some [1, 2]"
proof -
  have "acyclic (child_rel [category 2 (Some 1)])"
  proof (rule acyclicI_order [where f = "\<lambda>i. - i"])
    fix a b
    assume "(a, b) \<in> child_rel [category 2 (Some 1)]"
    then show "- b < - a"
      by (auto simp: child_rel_def category_def has_parent_def)
  qed
  moreover have "getCategoryChildrenIds 2 (category 1 None) [category 2 (Some 1)] = Some [1, 2]"
    by (simp add: getCategoryChildrenIds_def category_def has_parent_def numeral_2_eq_2)
  moreover have "category 1 None \<notin> set [category 2 (Some 1)]"
    by (simp add: category_def)
  ultimately show ?thesis by simp
qed

text \<open>
  C8. On an acyclic category list the traversal returns: some depth of nested calls
  is enough. When the starting id leads into a cycle of parent pointers, no depth is
  enough: the calls nest without end, since nothing records the ids already visited.
\<close>

theorem collect_termination:
  "(acyclic (child_rel categories) \<longrightarrow>
      (\<exists>fuel ids. getCategoryChildrenIds fuel c categories = Some ids))
   \<and> (reaches_cycle categories (cat_id c) \<longrightarrow>
      (\<forall>fuel. getCategoryChildrenIds fuel c categories = None))"
proof (intro conjI impI allI)
  assume "acyclic (child_rel categories)"
  from collect_acyclic [OF this, of c]
  show "\<exists>fuel ids. getCategoryChildrenIds fuel c categories = Some ids" by blast
next
  fix fuel
  assume "reaches_cycle categories (cat_id c)"
  then show "getCategoryChildrenIds fuel c categories = None"
    unfolding getCategoryChildrenIds_def by (rule findChildren_cycle)
qed

theorem collect_termination_witness:
  "acyclic (child_rel mockCategories)
   \<and> (\<exists>fuel ids. getCategoryChildrenIds fuel (category 1 None) mockCategories = Some ids)
   \<and> reaches_cycle [category 1 (Some 2), category 2 (Some 1)] (cat_id (category 1 (Some 2)))
   \<and> getCategoryChildrenIds 40 (category 1 (Some 2)) [category 1 (Some 2), category 2 (Some 1)] = None"
proof -
  have cyc: "reaches_cycle [category 1 (Some 2), category 2 (Some 1)] (cat_id (category 1 (Some 2)))"
    using two_cycle by (simp add: category_def)
  from collect_termination [of mockCategories "category 1 None"] acyclic_mock
  have "\<exists>fuel ids. getCategoryChildrenIds fuel (category 1 None) mockCategories = Some ids"
    by blast
  moreover from collect_termination [of "[category 1 (Some 2), category 2 (Some 1)]" "category 1 (Some 2)"] cyc
  have "getCategoryChildrenIds 40 (category 1 (Some 2)) [category 1 (Some 2), category 2 (Some 1)] = None"
    by blast
  ultimately show ?thesis using acyclic_mock cyc by simp
qed

section \<open>Properties of Client.get\<close>

lemmas fixture_defs = test_client_def new_Client_def clean_trailing_slash_def by_endpoint_def
  by_path_def respond_def observe_def no_query_def moved_body_def null_entry_body_def
  not_json_def ok_body_def bad_gateway_json_def

lemmas get_defs = get_def build_url_def endpoint_url_def qstr_def request_headers_def
  parse_and_classify_def classify_def isApiErrorResponse_def errors_of_def ok_def startsWith_def
  quoted_def

lemma get_on_response:
  assumes url: "build_url stringify client options = Inr url"
    and res: "used_fetcher client options url (request_headers client) (signal options) = Inr res"
    and cb: "returns_normally (intercept options) res"
  shows "snd (get stringify client options) = parse_and_classify res"
    and "intercept options \<noteq> None \<Longrightarrow> fst (get stringify client options)
           = [Fetch url (request_headers client) (signal options), Intercept res]"
  using assms
  by (auto simp: get_def used_fetcher_def returns_normally_def Let_def split: option.splits)

lemma classify_not_before: "classify res data = Inl f \<Longrightarrow> \<not> raised_before_response f"
  by (auto simp: classify_def split: list.splits option.splits if_splits)

lemma parse_and_classify_not_before:
  "parse_and_classify res = Inl f \<Longrightarrow> \<not> raised_before_response f"
  by (auto simp: parse_and_classify_def dest: classify_not_before split: sum.splits)

lemma build_url_failure: "build_url stringify client options = Inl f \<Longrightarrow> raised_before_response f"
  by (auto simp: build_url_def endpoint_url_def split: option.splits if_splits)

lemma get_outcomes:
  fixes client :: "'a Client"
  assumes "get stringify client options = (log, Inl f)"
  shows "(log = [] \<and> raised_before_response f)
       \<or> (\<exists>url e. log = [Fetch url (request_headers client) (signal options)]
             \<and> (f = NetworkError e \<or> f = Propagated e))
       \<or> (\<exists>url (res :: 'a Response). log = [Fetch url (request_headers client) (signal options)]
             \<and> intercept options = None \<and> parse_and_classify res = Inl f)
       \<or> (\<exists>url res callback. log = [Fetch url (request_headers client) (signal options), Intercept res]
             \<and> used_fetcher client options url (request_headers client) (signal options) = Inr res
             \<and> intercept options = Some callback
             \<and> ((\<exists>e. f = Propagated e) \<or> parse_and_classify res = Inl f))"
proof (cases "build_url stringify client options")
  case (Inl e)
  with assms have "log = []" "f = e"
    by (auto simp: get_def)
  with Inl show ?thesis
    by (auto dest: build_url_failure)
next
  case (Inr url)
  let ?f = "case fetch options of Some f \<Rightarrow> f | None \<Rightarrow> fetcher client"
  show ?thesis
  proof (cases "?f url (request_headers client) (signal options)")
    case (Inl e)
    with Inr assms show ?thesis
      by (auto simp: get_def Let_def split: if_splits)
  next
    case res: (Inr res)
    show ?thesis
    proof (cases "intercept options")
      case None
      with Inr res assms show ?thesis
        by (auto simp: get_def Let_def)
    next
      case (Some callback)
      with Inr res assms show ?thesis
        by (cases "callback res") (auto simp: get_def used_fetcher_def Let_def)
    qed
  qed
qed

lemma url_posts:
  "build_url no_query (test_client f) (by_endpoint ''posts'') = Inr ''https://local.test/v1/posts''"
  by (simp add: fixture_defs build_url_def endpoint_url_def qstr_def)

text \<open>
  C3, in the form that holds. When the transport returns a response whose parsed body is an object
  with a non-empty \<open>errors\<close> array, \<open>get\<close> fails from the first entry: as a redirect
  carrying the entry's status and detail when that status is in \<open>[300, 400)\<close>, else as
  an API failure carrying the entry's status, title and detail, whatever the HTTP status
  of the response is; when the first entry is missing (a falsy value such as \<open>null\<close>), as
  an API failure carrying the HTTP status of the response and the title
  \<open>Unknown error\<close>.
\<close>

theorem errors_body_classification:
  assumes "build_url stringify client options = Inr url"
    and "used_fetcher client options url (request_headers client) (signal options) = Inr res"
    and "returns_normally (intercept options) res"
    and "json res = Inr (JsonObject (ErrorArray (first # others)) rest)"
  shows "snd (get stringify client options) = Inl (spec_classification (status res) first)"
proof -
  from assms(1-3) have "snd (get stringify client options) = parse_and_classify res"
    by (rule get_on_response(1))
  also from assms(4) have "\<dots> = Inl (spec_classification (status res) first)"
    by (simp add: parse_and_classify_def classify_def isApiErrorResponse_def errors_of_def
          spec_classification_def split: option.splits)
  finally show ?thesis .
qed

theorem errors_body_classification_witness:
  "build_url no_query (test_client (respond moved_body)) (by_endpoint ''posts'')
     = Inr ''https://local.test/v1/posts''
   \<and> used_fetcher (test_client (respond moved_body)) (by_endpoint ''posts'')
        ''https://local.test/v1/posts'' (request_headers (test_client (respond moved_body)))
        (signal (by_endpoint ''posts'')) = Inr moved_body
   \<and> returns_normally (intercept (by_endpoint ''posts'')) moved_body
   \<and> status moved_body = 200
   \<and> snd (get no_query (test_client (respond moved_body)) (by_endpoint ''posts''))
       = Inl (RedirectError 301 ''/v1/posts/2'')"
proof -
  let ?c = "test_client (respond moved_body)"
  let ?e = "Some \<lparr> err_status = 301, err_title = ''Moved'', err_detail = ''/v1/posts/2'' \<rparr>"
  have f: "used_fetcher ?c (by_endpoint ''posts'') ''https://local.test/v1/posts''
      (request_headers ?c) (signal (by_endpoint ''posts'')) = Inr moved_body"
    by (simp add: used_fetcher_def fixture_defs)
  have n: "returns_normally (intercept (by_endpoint ''posts'')) moved_body"
    by (simp add: returns_normally_def by_endpoint_def)
  have j: "json moved_body = Inr (JsonObject (ErrorArray (?e # [])) ''{}'')"
    by (simp add: moved_body_def)
  have s: "status moved_body = 200"
    by (simp add: moved_body_def)
  from errors_body_classification [OF url_posts f n j]
  have "snd (get no_query ?c (by_endpoint ''posts'')) = Inl (RedirectError 301 ''/v1/posts/2'')"
    by (simp add: spec_classification_def)
  with url_posts f n s show ?thesis by simp
qed

text \<open>
  C3 as first stated fails on the body \<open>{ errors: [null] }\<close>: the failure carries the
  HTTP status and a generic title, nothing of the first entry.
\<close>

theorem errors_null_entry:
  "snd (get no_query (test_client (respond null_entry_body)) (by_endpoint ''posts''))
     = Inl (ApiError 200 ''Unknown error'' [])"
  by (simp add: fixture_defs get_defs)

text \<open>
  Whenever \<open>res.json()\<close> rejects, \<open>get\<close> rejects with that exception, unchanged: no
  \<open>try\<close> surrounds the call.
\<close>

lemma parse_failure_propagates:
  assumes "build_url stringify client options = Inr url"
    and "used_fetcher client options url (request_headers client) (signal options) = Inr res"
    and "returns_normally (intercept options) res"
    and "json res = Inl e"
  shows "snd (get stringify client options) = Inl (Propagated e)"
proof -
  from assms(1-3) have "snd (get stringify client options) = parse_and_classify res"
    by (rule get_on_response(1))
  with assms(4) show ?thesis
    by (simp add: parse_and_classify_def)
qed

text \<open>
  C4 at a 502 response whose body is HTML: \<open>get\<close> rejects with the \<open>SyntaxError\<close> of
  \<open>res.json()\<close>, not with an API failure carrying the status 502. The fallback for a
  response that is not ok, which gives that API failure on a 502 response with a JSON
  body, is not reached, because the body is parsed first.
\<close>

theorem parse_failure_not_api_error:
  "snd (get no_query (test_client (respond not_json)) (by_endpoint ''posts''))
     = Inl (Propagated (ErrorObject False ''SyntaxError'' ''Unexpected token < in JSON at position 0''))
   \<and> status not_json = 502
   \<and> snd (get no_query (test_client (respond bad_gateway_json)) (by_endpoint ''posts''))
     = Inl (ApiError 502 ''Unknown error'' [])"
  by (simp add: fixture_defs get_defs)

lemma get_with_callback:
  assumes "intercept options = Some callback"
    and "build_url stringify client options = Inr url"
    and "used_fetcher client options url (request_headers client) (signal options) = Inr res"
  shows "get stringify client options
       = ([Fetch url (request_headers client) (signal options), Intercept res],
          case callback res of Some e \<Rightarrow> Inl (Propagated e) | None \<Rightarrow> parse_and_classify res)"
  using assms
  by (cases "callback res") (simp_all add: get_def used_fetcher_def Let_def)

text \<open>
  C5, in the form that holds. With an \<open>intercept\<close> callback supplied, every call in which
  the transport returns a response calls the callback once with that response, before the
  body is parsed: whether the call then succeeds, the body is not JSON, the
  classification fails or the callback itself throws. So a redirect or an API failure is
  raised only after the callback was called. A usage error or a transport failure is
  raised without the callback having been called, since there is no response yet.
\<close>

theorem intercept_on_every_response:
  assumes "intercept options = Some callback"
  shows "(build_url stringify client options = Inr url
          \<and> used_fetcher client options url (request_headers client) (signal options) = Inr res
          \<longrightarrow> get stringify client options
              = ([Fetch url (request_headers client) (signal options), Intercept res],
                 case callback res of
                   Some e \<Rightarrow> Inl (Propagated e)
                 | None \<Rightarrow> parse_and_classify res))
       \<and> (get stringify client options = (log, Inl f) \<longrightarrow>
            (raised_by_classification f \<longrightarrow>
               (\<exists>url res. used_fetcher client options url (request_headers client) (signal options) = Inr res
                  \<and> log = [Fetch url (request_headers client) (signal options), Intercept res])
               \<and> intercepted log)
          \<and> (raised_before_response f \<longrightarrow> \<not> intercepted log))"
proof (intro conjI impI)
  assume "build_url stringify client options = Inr url
          \<and> used_fetcher client options url (request_headers client) (signal options) = Inr res"
  with assms show "get stringify client options
              = ([Fetch url (request_headers client) (signal options), Intercept res],
                 case callback res of
                   Some e \<Rightarrow> Inl (Propagated e)
                 | None \<Rightarrow> parse_and_classify res)"
    by (simp add: get_with_callback)
next
  assume run: "get stringify client options = (log, Inl f)" and "raised_by_classification f"
  then have "\<not> raised_before_response f" "\<forall>e. f \<noteq> NetworkError e \<and> f \<noteq> Propagated e"
    by (cases f; simp)+
  with get_outcomes [OF run] assms
  show "\<exists>url res. used_fetcher client options url (request_headers client) (signal options) = Inr res
          \<and> log = [Fetch url (request_headers client) (signal options), Intercept res]"
    by auto
  then show "intercepted log"
    by auto
next
  assume run: "get stringify client options = (log, Inl f)" and before: "raised_before_response f"
  then have "\<forall>e. f \<noteq> Propagated e"
    by (cases f) simp_all
  with get_outcomes [OF run] assms before
  show "\<not> intercepted log"
    by (auto dest: parse_and_classify_not_before)
qed

theorem intercept_on_every_response_witness:
  "intercept ((by_endpoint ''posts'') \<lparr> intercept := Some observe \<rparr>) = Some observe
   \<and> build_url no_query (test_client (respond ok_body))
        ((by_endpoint ''posts'') \<lparr> intercept := Some observe \<rparr>) = Inr ''https://local.test/v1/posts''
   \<and> get no_query (test_client (respond ok_body)) ((by_endpoint ''posts'') \<lparr> intercept := Some observe \<rparr>)
       = ([Fetch ''https://local.test/v1/posts'' [(''Accept'', ''application/json'')] None,
           Intercept ok_body], Inr (JsonObject NoErrorsKey ''{data}''))
   \<and> get no_query (test_client (respond not_json)) ((by_endpoint ''posts'') \<lparr> intercept := Some observe \<rparr>)
       = ([Fetch ''https://local.test/v1/posts'' [(''Accept'', ''application/json'')] None,
           Intercept not_json],
          Inl (Propagated (ErrorObject False ''SyntaxError'' ''Unexpected token < in JSON at position 0'')))
   \<and> get no_query (test_client (respond moved_body)) ((by_endpoint ''posts'') \<lparr> intercept := Some observe \<rparr>)
       = ([Fetch ''https://local.test/v1/posts'' [(''Accept'', ''application/json'')] None,
           Intercept moved_body], Inl (RedirectError 301 ''/v1/posts/2''))
   \<and> raised_by_classification (RedirectError 301 ''/v1/posts/2'')
   \<and> intercepted [Fetch ''https://local.test/v1/posts'' [(''Accept'', ''application/json'')] None,
           Intercept moved_body]
   \<and> get no_query (test_client (respond moved_body)) ((by_endpoint []) \<lparr> intercept := Some observe \<rparr>)
       = ([], Inl (UsageError ''[BTF-API] You must provide either a path or an endpoint''))
   \<and> raised_before_response (UsageError ''[BTF-API] You must provide either a path or an endpoint'')
   \<and> \<not> intercepted ([] :: string event list)"
proof -
  let ?o1 = "(by_endpoint ''posts'') \<lparr> intercept := Some observe \<rparr>"
  let ?o2 = "(by_endpoint []) \<lparr> intercept := Some observe \<rparr>"
  let ?url = "''https://local.test/v1/posts''"
  let ?hs = "[(''Accept'', ''application/json'')]"
  have i1: "intercept ?o1 = Some observe" and i2: "intercept ?o2 = Some observe"
    by simp_all
  have u: "build_url no_query (test_client f) ?o1 = Inr ?url" for f :: "string fetch_fn"
    by (simp add: fixture_defs build_url_def endpoint_url_def qstr_def)
  have h: "request_headers (test_client f) = ?hs" for f :: "string fetch_fn"
    by (simp add: fixture_defs request_headers_def)
  have s: "signal ?o1 = None"
    by (simp add: by_endpoint_def)
  have t: "used_fetcher (test_client (respond r)) ?o1 ?url
      (request_headers (test_client (respond r))) (signal ?o1) = Inr r" for r :: "string Response"
    by (simp add: used_fetcher_def fixture_defs)
  have cb: "observe r = None" for r
    by (simp add: observe_def)
  from intercept_on_every_response [OF i1, of no_query "test_client (respond ok_body)" ?url ok_body] u t
  have g_ok: "get no_query (test_client (respond ok_body)) ?o1
      = ([Fetch ?url ?hs None, Intercept ok_body], Inr (JsonObject NoErrorsKey ''{data}''))"
    by (simp add: h s cb parse_and_classify_def classify_def isApiErrorResponse_def ok_def ok_body_def)
  from intercept_on_every_response [OF i1, of no_query "test_client (respond not_json)" ?url not_json] u t
  have g_bad: "get no_query (test_client (respond not_json)) ?o1
      = ([Fetch ?url ?hs None, Intercept not_json],
         Inl (Propagated (ErrorObject False ''SyntaxError'' ''Unexpected token < in JSON at position 0'')))"
    by (simp add: h s cb parse_and_classify_def not_json_def)
  have g1: "get no_query (test_client (respond moved_body)) ?o1
      = ([Fetch ?url ?hs None, Intercept moved_body], Inl (RedirectError 301 ''/v1/posts/2''))"
    by (simp add: fixture_defs get_defs)
  have g2: "get no_query (test_client (respond moved_body)) ?o2
      = ([], Inl (UsageError ''[BTF-API] You must provide either a path or an endpoint''))"
    by (simp add: fixture_defs get_defs)
  from intercept_on_every_response [OF i1, of no_query "test_client (respond moved_body)" _ _
      "[Fetch ?url ?hs None, Intercept moved_body]" "RedirectError 301 ''/v1/posts/2''"] g1
  have "intercepted [Fetch ?url ?hs None, Intercept moved_body]"
    by simp
  moreover from intercept_on_every_response [OF i2, of no_query "test_client (respond moved_body)" _ _
      "[]" "UsageError ''[BTF-API] You must provide either a path or an endpoint''"] g2
  have "\<not> intercepted ([] :: string event list)"
    by simp
  ultimately show ?thesis using i1 u g_ok g_bad g1 g2 by simp
qed

text \<open>
  C5 as first stated fails on a path without the version prefix: the usage error is
  raised and the callback has not run.
\<close>

theorem intercept_skipped_on_usage_error:
  "get no_query (test_client (respond moved_body)) ((by_path ''/vyolo'') \<lparr> intercept := Some observe \<rparr>)
     = ([], Inl (UsageError (''[BTF-API] Invalid path : must starts with '' @ quoted ''/v1''
              @ '', got '' @ quoted ''/vyolo'')))"
  by (simp add: fixture_defs get_defs)

text \<open>
  C6 at the query \<open>{ filter: { query: '%23', authors: '%23' } }\<close>: the encoder's output
  holds \<open>%2523\<close> twice, and the query string that \<open>get\<close> builds still holds the second
  one.
\<close>

theorem qstr_replaces_first_only:
  "qstr qs_two_hash (Some two_hash_query) = ''?filter[query]=%23&filter[authors]=%2523''
   \<and> build_url qs_two_hash (test_client (respond moved_body))
        ((by_endpoint ''posts'') \<lparr> query := Some two_hash_query \<rparr>)
       = Inr ''https://local.test/v1/posts?filter[query]=%23&filter[authors]=%2523''"
  by (simp add: fixture_defs build_url_def endpoint_url_def qstr_def qs_two_hash_def startsWith_def)

text \<open>
  C10. When a non-empty path is passed, the URL is built from the domain and the path
  alone: the endpoint, the id, the query and the query encoder have no influence on the
  URL nor on the whole call, and with the version prefix in place the URL is the domain
  followed by the path, with no query string.
\<close>

theorem path_takes_precedence:
  assumes "path options = Some p" and "p \<noteq> []"
  shows "build_url stringify client options
           = build_url stringify' client (options \<lparr> endpoint := e, id' := i, query := q \<rparr>)
       \<and> get stringify client options
           = get stringify' client (options \<lparr> endpoint := e, id' := i, query := q \<rparr>)
       \<and> (startsWith p (''/'' @ apiVersion client)
            \<longrightarrow> build_url stringify client options = Inr (domain client @ p))"
  using assms
  by (simp add: get_def build_url_def Let_def cong: sum.case_cong option.case_cong)

theorem path_takes_precedence_witness:
  "path path_and_endpoint = Some ''/v1/posts/123''
   \<and> ''/v1/posts/123'' \<noteq> []
   \<and> startsWith ''/v1/posts/123'' (''/'' @ apiVersion (test_client (respond moved_body)))
   \<and> build_url qs_two_hash (test_client (respond moved_body)) path_and_endpoint
       = Inr ''https://local.test/v1/posts/123''
   \<and> get qs_two_hash (test_client (respond moved_body)) path_and_endpoint
       = get no_query (test_client (respond moved_body)) (by_path ''/v1/posts/123'')"
proof -
  let ?c = "test_client (respond moved_body)"
  have p: "path path_and_endpoint = Some ''/v1/posts/123''"
    by (simp add: path_and_endpoint_def)
  have ne: "''/v1/posts/123'' \<noteq> []" by simp
  have sw: "startsWith ''/v1/posts/123'' (''/'' @ apiVersion ?c)"
    by (simp add: startsWith_def fixture_defs)
  have d: "domain ?c = ''https://local.test''"
    by (simp add: fixture_defs)
  have upd: "path_and_endpoint \<lparr> endpoint := None, id' := None, query := None \<rparr> = by_path ''/v1/posts/123''"
    by (simp add: path_and_endpoint_def by_path_def)
  note main = path_takes_precedence [OF p ne, of qs_two_hash ?c no_query None None None]
  from main have "get qs_two_hash ?c path_and_endpoint
      = get no_query ?c (path_and_endpoint \<lparr> endpoint := None, id' := None, query := None \<rparr>)"
    by (rule conjunct1 [OF conjunct2])
  then have g: "get qs_two_hash ?c path_and_endpoint = get no_query ?c (by_path ''/v1/posts/123'')"
    by (simp only: upd)
  from main sw have "build_url qs_two_hash ?c path_and_endpoint = Inr (domain ?c @ ''/v1/posts/123'')"
    by blast
  then have "build_url qs_two_hash ?c path_and_endpoint = Inr ''https://local.test/v1/posts/123''"
    by (simp add: d)
  with g p ne sw show ?thesis by simp
qed

end
